theory Spec2Isabelle
  imports Complex_Main "HOL-Library.Sublist"
begin

section \<open>Strings as Python sees them\<close>

text \<open>
  A Python \<open>str\<close> is modelled as a \<open>string\<close> whose characters are the code points
  below 256. \<open>str.split()\<close>, \<open>str.strip()\<close> and the regular expression class
  \<open>\s\<close> of \<open>app.py\<close> all use the same whitespace test; below 256 it holds for
  the code points 9..13, 28..32, 133 and 160.
\<close>

definition is_space :: "char \<Rightarrow> bool" where
  "is_space c \<longleftrightarrow>
     (let n = (of_char c :: nat)
      in (9 \<le> n \<and> n \<le> 13) \<or> (28 \<le> n \<and> n \<le> 32) \<or> n = 133 \<or> n = 160)"

text \<open>\<open>re.sub(r'\s+', ' ', text)\<close>: every maximal run of whitespace becomes one blank.\<close>

function collapse_ws :: "string \<Rightarrow> string" where
  "collapse_ws [] = []"
| "collapse_ws (c # cs) =
     (if is_space c then CHR '' '' # collapse_ws (dropWhile is_space cs)
      else c # collapse_ws cs)"
  by pat_completeness auto
termination
  by (relation "measure length") (auto simp: length_dropWhile_le less_Suc_eq_le)

text \<open>\<open>s.strip()\<close>: leading and trailing whitespace removed.\<close>

definition strip :: "string \<Rightarrow> string" where
  "strip s = rev (dropWhile is_space (rev (dropWhile is_space s)))"

text \<open>\<open>s.split()\<close>: the maximal runs of non-whitespace, in order.\<close>

function split_ws :: "string \<Rightarrow> string list" where
  "split_ws [] = []"
| "split_ws (c # cs) =
     (if is_space c then split_ws cs
      else takeWhile (\<lambda>x. \<not> is_space x) (c # cs)
             # split_ws (dropWhile (\<lambda>x. \<not> is_space x) cs))"
  by pat_completeness auto
termination
  by (relation "measure length") (auto simp: length_dropWhile_le less_Suc_eq_le)

text \<open>\<open>sep.join(xs)\<close>.\<close>

fun join :: "string \<Rightarrow> string list \<Rightarrow> string" where
  "join sep [] = []"
| "join sep [x] = x"
| "join sep (x # y # ys) = x @ sep @ join sep (y # ys)"

text \<open>\<open>s.endswith('.')\<close>.\<close>

definition ends_with_period :: "string \<Rightarrow> bool" where
  "ends_with_period s \<longleftrightarrow> s \<noteq> [] \<and> last s = CHR ''.''"

section \<open>TextNormalizer: \<open>clean_text\<close>\<close>

text \<open>
  \<open>clean_text\<close> hands the raw input to the HTML parser of the \<open>bs4\<close> library and
  normalises the whitespace of the text it gets back. The library is not part of
  the repository: its text extraction (\<open>BeautifulSoup(raw, "html.parser").get_text()\<close>)
  is the parameter \<open>get_text\<close>.
\<close>

definition normalize_ws :: "string \<Rightarrow> string" where
  "normalize_ws t = strip (collapse_ws t)"

definition clean_text :: "(string \<Rightarrow> string) \<Rightarrow> string \<Rightarrow> string" where
  "clean_text get_text raw_html = (let text = get_text raw_html in normalize_ws text)"

text \<open>
  A model of the library's text extraction on a fragment of HTML, used to run
  \<open>clean_text\<close> on concrete inputs: a tag is \<open><\<close> followed by a letter or \<open>/\<close>,
  up to the next \<open>>\<close>, and contributes no text (a tag that is never closed is text);
  the character references \<open>&lt;\<close>, \<open>&gt;\<close> and \<open>&amp;\<close> are decoded; every other
  character is text.
\<close>

definition is_ascii_letter :: "char \<Rightarrow> bool" where
  "is_ascii_letter c \<longleftrightarrow>
     (let n = (of_char c :: nat) in (65 \<le> n \<and> n \<le> 90) \<or> (97 \<le> n \<and> n \<le> 122))"

function soup_text :: "string \<Rightarrow> string" where
  "soup_text [] = []"
| "soup_text (c # cs) =
     (if c = CHR ''<'' \<and> cs \<noteq> [] \<and> (is_ascii_letter (hd cs) \<or> hd cs = CHR ''/'')
         \<and> CHR ''>'' \<in> set cs
      then soup_text (drop 1 (dropWhile (\<lambda>x. x \<noteq> CHR ''>'') cs))
      else if c = CHR ''&'' \<and> take 3 cs = ''lt;'' then CHR ''<'' # soup_text (drop 3 cs)
      else if c = CHR ''&'' \<and> take 3 cs = ''gt;'' then CHR ''>'' # soup_text (drop 3 cs)
      else if c = CHR ''&'' \<and> take 4 cs = ''amp;'' then CHR ''&'' # soup_text (drop 4 cs)
      else c # soup_text cs)"
  by pat_completeness auto
termination
proof (relation "measure length")
  fix c :: char and cs :: string
  have "length (dropWhile (\<lambda>x. x \<noteq> CHR ''>'') cs) \<le> length cs"
    by (rule length_dropWhile_le)
  then show "(drop 1 (dropWhile (\<lambda>x. x \<noteq> CHR ''>'') cs), c # cs) \<in> measure length"
    by simp
qed auto

section \<open>ExtractiveSummarizer: the fallback branch of \<open>generate_summary\<close>\<close>

text \<open>\<open>text.split('. ')\<close>: split on the literal two-character delimiter, empty pieces kept.\<close>

fun split_sentences :: "string \<Rightarrow> string list" where
  "split_sentences [] = [[]]"
| "split_sentences [c] = [[c]]"
| "split_sentences (c # d # cs) =
     (if c = CHR ''.'' \<and> d = CHR '' '' then [] # split_sentences cs
      else (case split_sentences (d # cs) of [] \<Rightarrow> [[c]] | s # ss \<Rightarrow> (c # s) # ss))"

text \<open>\<open>s.lower()\<close> on the code points below 256.\<close>

definition lower_char :: "char \<Rightarrow> char" where
  "lower_char c =
     (let n = (of_char c :: nat)
      in if (65 \<le> n \<and> n \<le> 90) \<or> (192 \<le> n \<and> n \<le> 222 \<and> n \<noteq> 215)
         then char_of (n + 32) else c)"

definition lower :: "string \<Rightarrow> string" where
  "lower s = map lower_char s"

text \<open>
  The dictionary \<open>word_freq\<close>: every word of the lower-cased text longer than three
  characters is counted.
\<close>

definition count_word :: "(string \<rightharpoonup> nat) \<Rightarrow> string \<Rightarrow> (string \<rightharpoonup> nat)" where
  "count_word word_freq word =
     (if length word > 3
      then word_freq(word \<mapsto> (case word_freq word of None \<Rightarrow> 0 | Some k \<Rightarrow> k) + 1)
      else word_freq)"

definition word_frequencies :: "string \<Rightarrow> (string \<rightharpoonup> nat)" where
  "word_frequencies text =
     fold (\<lambda>word word_freq. count_word word_freq word) (split_ws (lower text)) Map.empty"

text \<open>
  The score of sentence \<open>i\<close> of \<open>n\<close>: position, word frequencies, length bonus. The
  source computes it in double precision; the model computes it in exact rationals.
  No property proved below depends on the value of a score.
\<close>

definition sentence_score :: "(string \<rightharpoonup> nat) \<Rightarrow> nat \<Rightarrow> nat \<Rightarrow> string \<Rightarrow> rat" where
  "sentence_score word_freq n i sentence =
     (let sentence_words = split_ws (lower sentence);
          position = of_nat (n - i) / of_nat n * (3 / 10);
          frequency = of_nat (sum_list (map (\<lambda>w. case word_freq w of None \<Rightarrow> 0 | Some k \<Rightarrow> k)
                                sentence_words));
          bonus = (if 10 \<le> length sentence_words \<and> length sentence_words \<le> 30
                   then 2 / 10 else 0)
      in position + frequency + bonus)"

text \<open>
  \<open>max(2, min(5, int(len(sentences) * 0.3)))\<close>. \<open>int\<close> truncates, and the double
  product \<open>n * 0.3\<close> truncates to \<open>3 * n div 10\<close>: when \<open>10\<close> divides \<open>n\<close> the
  product rounds to the integer \<open>3 * n / 10\<close> itself, otherwise it stays strictly
  between the two neighbouring integers.
\<close>

definition target_sentences :: "nat \<Rightarrow> nat" where
  "target_sentences n = max 2 (min 5 (3 * n div 10))"

text \<open>
  \<open>sorted(scores.keys(), key=lambda x: scores[x], reverse=True)[:target_sentences]\<close>
  followed by \<open>top_sentences.sort()\<close>. Python's sort is stable, also with
  \<open>reverse=True\<close>: indices of equal score stay in increasing order, which is what
  the stable \<open>sort_key\<close> on the negated score gives.
\<close>

definition top_sentences :: "(nat \<Rightarrow> rat) \<Rightarrow> nat \<Rightarrow> nat list" where
  "top_sentences scores n =
     sort (take (target_sentences n) (sort_key (\<lambda>x. - scores x) [0..<n]))"

definition selected_sentences :: "string \<Rightarrow> nat list" where
  "selected_sentences text =
     (let sentences = split_sentences text;
          word_freq = word_frequencies text
      in top_sentences (\<lambda>i. sentence_score word_freq (length sentences) i (sentences ! i))
           (length sentences))"

definition extractive_summary :: "string \<Rightarrow> string" where
  "extractive_summary text =
     (let sentences = split_sentences text
      in if length sentences \<le> 3 then text
         else (let summary = join ''. '' (map (\<lambda>i. sentences ! i) (selected_sentences text))
               in if ends_with_period summary then summary else summary @ ''.''))"

text \<open>
  The specification's target, for comparison: \<open>max(2, min(5, round(N * 0.3)))\<close>,
  with \<open>round\<close> to the nearest integer (a tie to the even neighbour, as Python's
  \<open>round\<close>).
\<close>

definition round_div :: "nat \<Rightarrow> nat \<Rightarrow> nat" where
  "round_div a b =
     (let q = a div b; r = a mod b
      in if 2 * r < b then q else if b < 2 * r then q + 1 else if even q then q else q + 1)"

definition spec_target_sentences :: "nat \<Rightarrow> nat" where
  "spec_target_sentences n = max 2 (min 5 (round_div (3 * n) 10))"

section \<open>SummarizationEngine: \<open>generate_summary\<close>\<close>

text \<open>
  An exception is a value: a call that raises returns \<open>Inl (Exception reason)\<close>,
  where \<open>reason\<close> is \<open>str(e)\<close>.
\<close>

datatype error = Exception string

text \<open>
  The \<open>transformers\<close> pipeline is not part of the repository. A call
  \<open>summarizer(text, max_length=a, min_length=b, do_sample=False)[0]['summary_text']\<close>
  is modelled as a function of \<open>text\<close>, \<open>a\<close> and \<open>b\<close> that returns the summary or
  raises. \<open>TRANSFORMER_AVAILABLE\<close> together with the loaded pipeline is a
  \<open>summarizer option\<close>.
\<close>

type_synonym summarizer = "string \<Rightarrow> int \<Rightarrow> int \<Rightarrow> error + string"

definition advisory :: string where
  "advisory = ''Text too short for meaningful summarization. Please provide at least 50 words.''"

definition chunk_size :: nat where
  "chunk_size = 800"

text \<open>\<open>[' '.join(words[i:i+chunk_size]) for i in range(0, len(words), chunk_size)]\<close>\<close>

definition chunk_texts :: "string list \<Rightarrow> string list" where
  "chunk_texts words =
     map (\<lambda>i. join '' '' (take chunk_size (drop i words)))
       (map (\<lambda>k. k * chunk_size) [0..<(length words + (chunk_size - 1)) div chunk_size])"

text \<open>
  The loop over the chunks: a chunk whose call raises is skipped. As for the
  sentences, \<open>int(len(chunk.split()) * 0.3)\<close> is \<open>3 * n div 10\<close>.
\<close>

fun summarize_chunks :: "summarizer \<Rightarrow> string list \<Rightarrow> string list" where
  "summarize_chunks summarizer [] = []"
| "summarize_chunks summarizer (chunk # chunks) =
     (case summarizer chunk (min 100 (int (3 * length (split_ws chunk) div 10))) 20 of
        Inr chunk_summary \<Rightarrow> chunk_summary # summarize_chunks summarizer chunks
      | Inl e \<Rightarrow> summarize_chunks summarizer chunks)"

text \<open>
  \<open>generate_summary(text, max_words, min_words)\<close>. The call that re-summarizes the
  combined chunk summaries stands outside every \<open>try\<close>: what it raises leaves the
  function. \<open>int(input_length * 0.4)\<close> is \<open>4 * n div 10\<close> (the double product rounds
  to the integer when \<open>5\<close> divides \<open>n\<close>, and stays between its neighbours otherwise).
\<close>

definition generate_summary ::
    "summarizer option \<Rightarrow> string \<Rightarrow> int \<Rightarrow> int \<Rightarrow> error + string" where
  "generate_summary transformer text max_words min_words =
     (let input_length = length (split_ws text)
      in if input_length < 50 then Inr advisory
         else (case transformer of
                 Some summarizer \<Rightarrow>
                   if input_length > 1000
                   then (let words = split_ws text;
                             chunks = chunk_texts words;
                             summaries = summarize_chunks summarizer chunks;
                             combined = join '' '' summaries
                         in if int (length (split_ws combined)) > max_words
                            then summarizer combined max_words min_words
                            else Inr combined)
                   else (let max_len = min max_words
                                         (max min_words (int (4 * input_length div 10)))
                         in case summarizer text max_len min_words of
                              Inr summary \<Rightarrow> Inr summary
                            | Inl (Exception e) \<Rightarrow> Inr (''Error generating summary: '' @ e))
               | None \<Rightarrow> Inr (extractive_summary text)))"

text \<open>The results of the calls that returned, in order.\<close>

fun successes :: "('e + 'a) list \<Rightarrow> 'a list" where
  "successes [] = []"
| "successes (Inr r # rs) = r # successes rs"
| "successes (Inl e # rs) = successes rs"

text \<open>
  The specification's bounds, for comparison: it rounds where the code truncates.
\<close>

definition spec_chunk_max_length :: "nat \<Rightarrow> int" where
  "spec_chunk_max_length chunk_words = min 100 (int (round_div (3 * chunk_words) 10))"

definition spec_max_len :: "nat \<Rightarrow> int \<Rightarrow> int \<Rightarrow> int" where
  "spec_max_len word_count max_words min_words =
     min max_words (max min_words (int (round_div (4 * word_count) 10)))"

text \<open>Summarizers and texts to run the engine on.\<close>

definition echo_bound :: summarizer where
  "echo_bound text max_length min_length = Inr (replicate (nat max_length) CHR ''x'')"

definition flaky :: summarizer where
  "flaky text max_length min_length =
     (if max_length = 100 then Inr ''ok'' else Inl (Exception ''out of memory''))"

definition always_failing :: summarizer where
  "always_failing text max_length min_length = Inl (Exception ''model unavailable'')"

definition repeated_word :: "nat \<Rightarrow> string" where
  "repeated_word n = join '' '' (replicate n ''word'')"

text \<open>What \<open>split()\<close> returns are words: non-empty, without whitespace.\<close>

definition is_word :: "string \<Rightarrow> bool" where
  "is_word w \<longleftrightarrow> w \<noteq> [] \<and> (\<forall>c \<in> set w. \<not> is_space c)"

section \<open>EntityExtractor: \<open>extract_entities\<close>\<close>

subsection \<open>The regular expressions of the fallback\<close>

text \<open>
  The module \<open>re\<close> is Python's. Its backtracking matcher is modelled for the
  constructs the three patterns of \<open>extract_entities\<close> use: a pattern is a value of
  \<open>rx\<close>, and \<open>rmatch\<close> lists the positions at which a match from a given position can
  end, in the order the backtracking matcher tries them (alternatives left to
  right, greedy repetition). A position is the character before it (for \<open>\b\<close>)
  and the rest of the text.
\<close>

datatype rx =
    Eps
  | Lit char
  | Digit
  | Space
  | Range char char
  | AnyOf "char list"
  | WordBoundary
  | Seq rx rx
  | Alt rx rx
  | Rep rx nat nat
  | Many rx nat

definition is_digit :: "char \<Rightarrow> bool" where
  "is_digit c \<longleftrightarrow> (let n = (of_char c :: nat) in 48 \<le> n \<and> n \<le> 57)"

text \<open>\<open>\w\<close>: the alphanumeric code points below 256, and the underscore.\<close>

definition is_word_char :: "char \<Rightarrow> bool" where
  "is_word_char c \<longleftrightarrow>
     (let n = (of_char c :: nat)
      in (48 \<le> n \<and> n \<le> 57) \<or> (65 \<le> n \<and> n \<le> 90) \<or> n = 95 \<or> (97 \<le> n \<and> n \<le> 122)
         \<or> n = 170 \<or> n = 178 \<or> n = 179 \<or> n = 181 \<or> n = 185 \<or> n = 186
         \<or> (188 \<le> n \<and> n \<le> 190) \<or> (192 \<le> n \<and> n \<le> 214) \<or> (216 \<le> n \<and> n \<le> 246)
         \<or> 248 \<le> n)"

type_synonym cursor = "char option \<times> string"

definition at_word_boundary :: "cursor \<Rightarrow> bool" where
  "at_word_boundary z =
     ((case fst z of None \<Rightarrow> False | Some c \<Rightarrow> is_word_char c)
        \<noteq> (case snd z of [] \<Rightarrow> False | c # cs \<Rightarrow> is_word_char c))"

definition step_char :: "(char \<Rightarrow> bool) \<Rightarrow> cursor \<Rightarrow> cursor list" where
  "step_char accepts z =
     (case snd z of [] \<Rightarrow> [] | c # cs \<Rightarrow> if accepts c then [(Some c, cs)] else [])"

text \<open>
  \<open>ic\<close> is the flag \<open>re.IGNORECASE\<close>; it bears on the literals only, the one pattern
  compiled with it having no character range. \<open>Rep r lo hi\<close> is \<open>r{lo,hi}\<close>;
  \<open>Many r lo\<close> is \<open>r*\<close> (\<open>lo = 0\<close>) or \<open>r+\<close> (\<open>lo = 1\<close>): as each repetition of the
  bodies used here consumes a character, the rest of the text bounds their number.
\<close>

function rmatch :: "bool \<Rightarrow> rx \<Rightarrow> cursor \<Rightarrow> cursor list"
  and rrepeat :: "bool \<Rightarrow> rx \<Rightarrow> nat \<Rightarrow> nat \<Rightarrow> cursor \<Rightarrow> cursor list" where
  "rmatch ic Eps z = [z]"
| "rmatch ic (Lit l) z = step_char (\<lambda>c. c = l \<or> (ic \<and> lower_char c = lower_char l)) z"
| "rmatch ic Digit z = step_char is_digit z"
| "rmatch ic Space z = step_char is_space z"
| "rmatch ic (Range a b) z =
     step_char (\<lambda>c. (of_char a :: nat) \<le> of_char c \<and> (of_char c :: nat) \<le> of_char b) z"
| "rmatch ic (AnyOf cs) z = step_char (\<lambda>c. c \<in> set cs) z"
| "rmatch ic WordBoundary z = (if at_word_boundary z then [z] else [])"
| "rmatch ic (Seq r1 r2) z = concat (map (rmatch ic r2) (rmatch ic r1 z))"
| "rmatch ic (Alt r1 r2) z = rmatch ic r1 z @ rmatch ic r2 z"
| "rmatch ic (Rep r lo hi) z = rrepeat ic r lo hi z"
| "rmatch ic (Many r lo) z = rrepeat ic r lo (max lo (length (snd z))) z"
| "rrepeat ic r lo 0 z = (if lo = 0 then [z] else [])"
| "rrepeat ic r lo (Suc hi) z =
     concat (map (rrepeat ic r (lo - 1) hi) (rmatch ic r z)) @ (if lo = 0 then [z] else [])"
  by pat_completeness auto
termination
  by (relation "inv_image (less_than <*lex*> less_than)
        (\<lambda>x. case x of Inl (ic, r, z) \<Rightarrow> (size r, 0)
                      | Inr (ic, r, lo, hi, z) \<Rightarrow> (size r, Suc hi))") auto

text \<open>
  \<open>re.findall(pattern, text)\<close> for a pattern without capturing groups: the matched
  texts, scanning from the left, the next search starting where the last match
  ended. (An empty match, which none of the three patterns has, is recorded and
  the scan moves on by one character.)
\<close>

function re_findall_from :: "bool \<Rightarrow> rx \<Rightarrow> cursor \<Rightarrow> string list" where
  "re_findall_from ic r (p, s) =
     (case rmatch ic r (p, s) of
        [] \<Rightarrow> (case s of [] \<Rightarrow> [] | c # cs \<Rightarrow> re_findall_from ic r (Some c, cs))
      | (p', s') # _ \<Rightarrow>
          if length s' < length s
          then take (length s - length s') s # re_findall_from ic r (p', s')
          else [] # (case s of [] \<Rightarrow> [] | c # cs \<Rightarrow> re_findall_from ic r (Some c, cs)))"
  by pat_completeness auto
termination
  by (relation "measure (\<lambda>(ic, r, p, s). length s)") auto

definition re_findall :: "rx \<Rightarrow> bool \<Rightarrow> string \<Rightarrow> string list" where
  "re_findall pattern ignorecase text = re_findall_from ignorecase pattern (None, text)"

definition seq :: "rx list \<Rightarrow> rx" where
  "seq rs = foldr Seq rs Eps"

definition str :: "string \<Rightarrow> rx" where
  "str s = seq (map Lit s)"

text \<open>\<open>\b\d{1,2}[/-]\d{1,2}[/-]\d{2,4}\b|\b\d{4}[/-]\d{1,2}[/-]\d{1,2}\b\<close>\<close>

definition date_pattern :: rx where
  "date_pattern =
     Alt (seq [WordBoundary, Rep Digit 1 2, AnyOf ''/-'', Rep Digit 1 2, AnyOf ''/-'',
               Rep Digit 2 4, WordBoundary])
         (seq [WordBoundary, Rep Digit 4 4, AnyOf ''/-'', Rep Digit 1 2, AnyOf ''/-'',
               Rep Digit 1 2, WordBoundary])"

text \<open>
  \<open>\$\d+(?:,\d{3})*(?:\.\d{2})?|\b\d+(?:,\d{3})*(?:\.\d{2})?\s*(?:dollars?|USD|million|billion)\b\<close>
\<close>

definition money_pattern :: rx where
  "money_pattern =
     Alt (seq [Lit CHR ''$'', Many Digit 1, Many (seq [Lit CHR '','', Rep Digit 3 3]) 0,
               Rep (seq [Lit CHR ''.'', Rep Digit 2 2]) 0 1])
         (seq [WordBoundary, Many Digit 1, Many (seq [Lit CHR '','', Rep Digit 3 3]) 0,
               Rep (seq [Lit CHR ''.'', Rep Digit 2 2]) 0 1, Many Space 0,
               Alt (seq [str ''dollar'', Rep (Lit CHR ''s'') 0 1])
                 (Alt (str ''USD'') (Alt (str ''million'') (str ''billion''))),
               WordBoundary])"

text \<open>\<open>\b[A-Z][a-z]+(?:\s+[A-Z][a-z]+)*\b\<close>\<close>

definition name_pattern :: rx where
  "name_pattern =
     seq [WordBoundary, Range CHR ''A'' CHR ''Z'', Many (Range CHR ''a'' CHR ''z'') 1,
          Many (seq [Many Space 1, Range CHR ''A'' CHR ''Z'',
                     Many (Range CHR ''a'' CHR ''z'') 1]) 0,
          WordBoundary]"

subsection \<open>The two branches of \<open>extract_entities\<close>\<close>

type_synonym entity = "string \<times> string"

text \<open>The branch taken when spaCy is not available.\<close>

definition regex_entities :: "string \<Rightarrow> entity list" where
  "regex_entities text =
     (let dates = re_findall date_pattern False text;
          entities = map (\<lambda>date. (date, ''DATE'')) (take 5 dates);
          money = re_findall money_pattern True text;
          entities = entities @ map (\<lambda>amount. (amount, ''MONEY'')) (take 5 money);
          names = re_findall name_pattern False text;
          entities = entities @ map (\<lambda>name. (name, ''PERSON/ORG''))
                                  (filter (\<lambda>name. length name > 3) (take 10 names))
      in take 20 entities)"

text \<open>
  The spaCy branch: the loop over \<open>doc.ents\<close> with the set \<open>seen\<close>. The model
  \<open>nlp\<close> is not part of the repository: a call returns the texts and labels of
  \<open>doc.ents\<close>, or raises.
\<close>

type_synonym nlp = "string \<Rightarrow> error + entity list"

fun collect_ents :: "entity list \<Rightarrow> string list \<Rightarrow> entity list" where
  "collect_ents [] seen = []"
| "collect_ents ((ent_text, label) # ents) seen =
     (if ent_text \<notin> set seen \<and> length (strip ent_text) > 1
      then (ent_text, label) # collect_ents ents (ent_text # seen)
      else collect_ents ents seen)"

definition extract_entities :: "nlp option \<Rightarrow> string \<Rightarrow> error + entity list" where
  "extract_entities spacy text =
     (case spacy of
        None \<Rightarrow> Inr (regex_entities text)
      | Some nlp \<Rightarrow>
          (case nlp text of
             Inl e \<Rightarrow> Inl e
           | Inr ents \<Rightarrow> Inr (take 20 (collect_ents ents []))))"

section \<open>The pipeline: \<open>summarize\<close>\<close>

text \<open>
  \<open>round(x, 1)\<close>, in exact rationals: the nearest multiple of one tenth, a tie going
  to the even one.
\<close>

definition round1 :: "rat \<Rightarrow> rat" where
  "round1 x =
     (let y = x * 10; f = \<lfloor>y\<rfloor>; d = y - of_int f
      in of_int (if d < 1 / 2 then f else if 1 / 2 < d then f + 1
                 else if even f then f else f + 1) / 10)"

definition compression_ratio_of :: "nat \<Rightarrow> nat \<Rightarrow> rat" where
  "compression_ratio_of summary_word_count word_count =
     round1 ((1 - of_nat summary_word_count / of_nat word_count) * 100)"

record summary_result =
  summary :: string
  entities :: "entity list"
  original_word_count :: nat
  summary_word_count :: nat
  compression_ratio :: rat
  timestamp :: string

datatype response = Failure string | Success summary_result

record history_entry =
  entry_id :: nat
  entry_timestamp :: string
  entry_original_word_count :: nat
  entry_original_text :: string
  entry_summary :: string
  entry_entities :: "entity list"
  entry_summary_word_count :: nat

text \<open>
  \<open>save_to_history\<close>, on the list the history file holds: the new entry is appended
  and the last fifty are kept.
\<close>

definition save_to_history ::
    "history_entry list \<Rightarrow> string \<Rightarrow> string \<Rightarrow> entity list \<Rightarrow> nat \<Rightarrow> string
       \<Rightarrow> history_entry list" where
  "save_to_history history original_text summary_text ents word_count time =
     (let entry = \<lparr> entry_id = length history + 1,
                     entry_timestamp = time,
                     entry_original_word_count = word_count,
                     entry_original_text =
                       (if length original_text > 200 then take 200 original_text @ ''...''
                        else original_text),
                     entry_summary = summary_text,
                     entry_entities = ents,
                     entry_summary_word_count = length (split_ws summary_text) \<rparr>;
          history = history @ [entry]
      in if length history > 50 then drop (length history - 50) history else history)"

text \<open>
  What \<open>summarize\<close> finds around it: the two optional models, the markup parser,
  the clock, and whether reading and writing the history file raises.
\<close>

record environment =
  transformer_model :: "summarizer option"
  spacy_model :: "nlp option"
  markup_text :: "string \<Rightarrow> string"
  clock :: string
  history_io :: "error option"

text \<open>
  \<open>summarize\<close>, from the text and \<open>max_words\<close> of the request on (reading the two
  from the request body is the transport's). Every exception raised inside is
  caught by the handler's \<open>except\<close> and answered with the failure envelope.
\<close>

definition summarize ::
    "environment \<Rightarrow> history_entry list \<Rightarrow> string \<Rightarrow> int \<Rightarrow> response \<times> history_entry list" where
  "summarize env history raw_text max_words =
     (if strip raw_text = [] then (Failure ''Please provide text to summarize'', history)
      else
        (let cleaned = clean_text (markup_text env) raw_text;
             word_count = length (split_ws cleaned)
         in if word_count < 20
            then (Failure ''Text is too short. Please provide at least 20 words.'', history)
            else
              (case generate_summary (transformer_model env) cleaned max_words 30 of
                 Inl (Exception e) \<Rightarrow> (Failure (''An error occurred: '' @ e), history)
               | Inr summary_text \<Rightarrow>
                   (case extract_entities (spacy_model env) cleaned of
                      Inl (Exception e) \<Rightarrow> (Failure (''An error occurred: '' @ e), history)
                    | Inr ents \<Rightarrow>
                        (case history_io env of
                           Some (Exception e) \<Rightarrow>
                             (Failure (''An error occurred: '' @ e), history)
                         | None \<Rightarrow>
                             (Success \<lparr> summary = summary_text,
                                        entities = ents,
                                        original_word_count = word_count,
                                        summary_word_count = length (split_ws summary_text),
                                        compression_ratio =
                                          compression_ratio_of (length (split_ws summary_text))
                                            word_count,
                                        timestamp = clock env \<rparr>,
                              save_to_history history cleaned summary_text ents word_count
                                (clock env)))))))"

text \<open>
  An environment and a request to run the pipeline on: no optional model is
  installed, the history file can be read and written.
\<close>

definition fallback_env :: environment where
  "fallback_env =
     \<lparr> transformer_model = None, spacy_model = None, markup_text = soup_text,
       clock = ''2024-05-01 12:00:00'', history_io = None \<rparr>"

definition sample_request :: string where
  "sample_request =
     ''<p>On 12/05/2023 Acme Corp paid $1,200 to John Smith.</p> <p>The board met in New York and approved the plan for next year.</p>''"

definition sample_text :: string where
  "sample_text =
     ''On 12/05/2023 Acme Corp paid $1,200 to John Smith. The board met in New York and approved the plan for next year.''"

section \<open>Properties of the text normaliser\<close>

subsection \<open>Whitespace normalisation is idempotent\<close>

text \<open>A text is single-spaced when its only whitespace characters are isolated blanks.\<close>

fun single_spaced :: "string \<Rightarrow> bool" where
  "single_spaced [] = True"
| "single_spaced [c] = (if is_space c then c = CHR '' '' else True)"
| "single_spaced (c # d # cs) =
     ((if is_space c then c = CHR '' '' \<and> \<not> is_space d else True) \<and> single_spaced (d # cs))"

lemma is_space_blank [simp]: "is_space CHR '' ''"
  by (simp add: is_space_def)

lemma single_spaced_Cons_nonspace:
  "\<not> is_space c \<Longrightarrow> single_spaced (c # cs) = single_spaced cs"
  by (cases cs) auto

lemma single_spaced_blank_Cons:
  "single_spaced (CHR '' '' # cs) = ((cs = [] \<or> \<not> is_space (hd cs)) \<and> single_spaced cs)"
  by (cases cs) auto

lemma dropWhile_space_cases:
  obtains "dropWhile is_space cs = []"
  | x xs where "dropWhile is_space cs = x # xs" "\<not> is_space x"
  by (metis dropWhile_eq_Cons_conv list.exhaust)

lemma single_spaced_collapse_ws: "single_spaced (collapse_ws s)"
proof (induction s rule: collapse_ws.induct)
  case 1
  show ?case by simp
next
  case (2 c cs)
  show ?case
  proof (cases "is_space c")
    case True
    with 2 have IH: "single_spaced (collapse_ws (dropWhile is_space cs))" by simp
    show ?thesis
    proof (rule dropWhile_space_cases [of cs])
      assume e: "dropWhile is_space cs = []"
      from True show ?thesis by (simp add: e)
    next
      fix x xs assume d: "dropWhile is_space cs = x # xs" and nx: "\<not> is_space x"
      with IH have "single_spaced (x # collapse_ws xs)" by simp
      with True d nx show ?thesis by (simp add: single_spaced_blank_Cons)
    qed
  next
    case False
    with 2 show ?thesis by (simp add: single_spaced_Cons_nonspace)
  qed
qed

lemma collapse_ws_single_spaced: "single_spaced t \<Longrightarrow> collapse_ws t = t"
proof (induction t rule: single_spaced.induct)
  case 1
  show ?case by simp
next
  case (2 c)
  then show ?case by (simp split: if_splits)
next
  case (3 c d cs)
  then show ?case by (auto split: if_splits)
qed

lemma single_spaced_drop: "single_spaced t \<Longrightarrow> single_spaced (drop n t)"
proof (induction t arbitrary: n rule: single_spaced.induct)
  case 1
  show ?case by simp
next
  case (2 c)
  then show ?case by (cases n) auto
next
  case (3 c d cs)
  then show ?case by (cases n) (auto split: if_splits)
qed

lemma single_spaced_take: "single_spaced t \<Longrightarrow> single_spaced (take n t)"
proof (induction t arbitrary: n rule: single_spaced.induct)
  case 1
  show ?case by simp
next
  case (2 c)
  then show ?case by (cases n) auto
next
  case (3 c d cs)
  show ?case
  proof (cases n)
    case 0
    then show ?thesis by simp
  next
    case (Suc m)
    from 3 have a: "single_spaced (take m (d # cs))" by simp
    show ?thesis
    proof (cases m)
      case 0
      with Suc 3 show ?thesis by (simp split: if_splits)
    next
      case (Suc k)
      with a 3 \<open>n = Suc m\<close> show ?thesis by (simp split: if_splits)
    qed
  qed
qed

lemma strip_as_take_drop: "\<exists>i j. strip s = take i (drop j s)"
proof -
  let ?u = "dropWhile is_space s"
  have "strip s = rev (drop (length (takeWhile is_space (rev ?u))) (rev ?u))"
    by (simp add: strip_def dropWhile_eq_drop)
  also have "\<dots> = take (length ?u - length (takeWhile is_space (rev ?u))) ?u"
    by (simp add: rev_drop)
  also have "?u = drop (length (takeWhile is_space s)) s"
    by (simp add: dropWhile_eq_drop)
  finally show ?thesis by blast
qed

lemma single_spaced_strip: "single_spaced t \<Longrightarrow> single_spaced (strip t)"
  using strip_as_take_drop [of t] single_spaced_take single_spaced_drop by metis

lemma dropWhile_fixed: "xs = [] \<or> \<not> P (hd xs) \<Longrightarrow> dropWhile P xs = xs"
  by (cases xs) auto

lemma strip_front: "dropWhile is_space (strip s) = strip s"
proof -
  let ?u = "dropWhile is_space s"
  have hu: "?u = [] \<or> \<not> is_space (hd ?u)"
    by (metis hd_dropWhile)
  obtain n where n: "strip s = take n ?u"
    by (metis strip_def dropWhile_eq_drop rev_drop rev_rev_ident length_rev)
  show ?thesis
  proof (cases "strip s = []")
    case True
    then show ?thesis by simp
  next
    case False
    with n have "hd (strip s) = hd ?u" "?u \<noteq> []" by (auto simp: hd_take)
    with hu show ?thesis by (intro dropWhile_fixed) auto
  qed
qed

lemma strip_idem: "strip (strip s) = strip s"
proof -
  have "strip (strip s) = rev (dropWhile is_space (rev (strip s)))"
    by (simp add: strip_def [of "strip s"] strip_front)
  also have "rev (strip s) = dropWhile is_space (rev (dropWhile is_space s))"
    by (simp add: strip_def)
  finally show ?thesis by (simp add: strip_def)
qed

lemma single_spaced_normalize_ws: "single_spaced (normalize_ws t)"
  by (simp add: normalize_ws_def single_spaced_strip single_spaced_collapse_ws)

lemma normalize_ws_idem: "normalize_ws (normalize_ws t) = normalize_ws t"
  unfolding normalize_ws_def
  by (simp add: collapse_ws_single_spaced single_spaced_strip single_spaced_collapse_ws
      strip_idem)

text \<open>
  Claim C9, as amended. \<open>clean_text\<close> is idempotent on every input whose cleaned text
  the markup parser hands back unchanged, that is, whose cleaned text holds nothing
  the parser reads as a tag or a character reference. On such an input a second
  \<open>clean_text\<close> returns the first one's result. (Without that condition it can fail.)
\<close>

theorem clean_text_idempotent_on_plain_text:
  assumes "get_text (clean_text get_text raw) = clean_text get_text raw"
  shows "clean_text get_text (clean_text get_text raw) = clean_text get_text raw"
proof -
  have "clean_text get_text (clean_text get_text raw)
          = normalize_ws (clean_text get_text raw)"
    using assms by (simp add: clean_text_def [of get_text "clean_text get_text raw"])
  also have "\<dots> = clean_text get_text raw"
    by (simp add: clean_text_def normalize_ws_idem)
  finally show ?thesis .
qed

theorem clean_text_idempotent_witness:
  "soup_text (clean_text soup_text ''<p>Hello,   world</p> '')
     = clean_text soup_text ''<p>Hello,   world</p> ''
   \<and> clean_text soup_text ''<p>Hello,   world</p> '' = ''Hello, world''
   \<and> clean_text soup_text (clean_text soup_text ''<p>Hello,   world</p> '')
     = clean_text soup_text ''<p>Hello,   world</p> ''"
proof -
  have v: "clean_text soup_text ''<p>Hello,   world</p> '' = ''Hello, world''"
    by (simp add: clean_text_def normalize_ws_def strip_def is_space_def is_ascii_letter_def)
  have h: "soup_text (clean_text soup_text ''<p>Hello,   world</p> '')
             = clean_text soup_text ''<p>Hello,   world</p> ''"
    unfolding v by simp
  from clean_text_idempotent_on_plain_text [of soup_text "''<p>Hello,   world</p> ''", OF h] h v
  show ?thesis by simp
qed

text \<open>
  Claim C9 as stated fails: the parser decodes character references, so the cleaned
  text of \<open>&lt;b&gt;bold\<close> is \<open><b>bold\<close>, which a second pass reads as a tag.
\<close>

theorem clean_text_not_idempotent:
  "clean_text soup_text ''&lt;b&gt;bold'' = ''<b>bold''
   \<and> clean_text soup_text (clean_text soup_text ''&lt;b&gt;bold'') = ''bold''"
  by (simp add: clean_text_def normalize_ws_def strip_def is_space_def is_ascii_letter_def)

section \<open>Properties of the extractive summarizer\<close>

lemma target_sentences_le: "4 \<le> n \<Longrightarrow> target_sentences n \<le> n"
  by (simp add: target_sentences_def)

lemma length_top_sentences:
  "4 \<le> n \<Longrightarrow> length (top_sentences scores n) = target_sentences n"
  using target_sentences_le [of n] by (simp add: top_sentences_def)

lemma distinct_top_sentences: "distinct (top_sentences scores n)"
  by (simp add: top_sentences_def distinct_take)

lemma set_top_sentences: "set (top_sentences scores n) \<subseteq> {..<n}"
proof -
  have "set (take (target_sentences n) (sort_key (\<lambda>x. - scores x) [0..<n]))
          \<subseteq> set (sort_key (\<lambda>x. - scores x) [0..<n])"
    by (rule set_take_subset)
  then show ?thesis by (auto simp: top_sentences_def)
qed

lemma sorted_top_sentences: "sorted_wrt (<) (top_sentences scores n)"
  using distinct_top_sentences [of scores n]
  by (simp add: strict_sorted_iff top_sentences_def)

text \<open>
  Claim C3, as amended. For an input that splits into \<open>N \<ge> 4\<close> sentences on \<open>". "\<close>,
  exactly \<open>max(2, min(5, floor(N * 0.3)))\<close> sentences are selected, each an index of
  a sentence of the input and none twice; the output is the selected sentences in
  document order joined with \<open>". "\<close>, with one period appended when the joined text
  does not already end with a period; so the output ends with a period.
\<close>

theorem extractive_summary_selects_floor_target:
  assumes "4 \<le> length (split_sentences text)"
  shows "length (selected_sentences text)
           = max 2 (min 5 (3 * length (split_sentences text) div 10))
       \<and> sorted_wrt (<) (selected_sentences text)
       \<and> set (selected_sentences text) \<subseteq> {..<length (split_sentences text)}
       \<and> extractive_summary text
           = (let summary = join ''. '' (map (\<lambda>i. split_sentences text ! i)
                                            (selected_sentences text))
              in if ends_with_period summary then summary else summary @ ''.'')
       \<and> ends_with_period (extractive_summary text)"
proof -
  let ?n = "length (split_sentences text)"
  have len: "length (selected_sentences text) = max 2 (min 5 (3 * ?n div 10))"
    using length_top_sentences [OF assms]
    by (simp add: selected_sentences_def Let_def target_sentences_def)
  have srt: "sorted_wrt (<) (selected_sentences text)"
    by (simp add: selected_sentences_def Let_def sorted_top_sentences)
  have sub: "set (selected_sentences text) \<subseteq> {..<?n}"
    unfolding selected_sentences_def Let_def by (rule set_top_sentences)
  have out: "extractive_summary text
           = (let summary = join ''. '' (map (\<lambda>i. split_sentences text ! i)
                                            (selected_sentences text))
              in if ends_with_period summary then summary else summary @ ''.'')"
    using assms by (simp add: extractive_summary_def Let_def)
  have per: "ends_with_period (extractive_summary text)"
    unfolding out Let_def by (simp add: ends_with_period_def)
  from len srt sub out per show ?thesis by blast
qed

theorem extractive_summary_selects_witness:
  "4 \<le> length (split_sentences ''The cat sat. Dogs bark loudly at cats. Birds sing. Cats and dogs play. Fish swim'')
   \<and> selected_sentences ''The cat sat. Dogs bark loudly at cats. Birds sing. Cats and dogs play. Fish swim'' = [1, 3]
   \<and> extractive_summary ''The cat sat. Dogs bark loudly at cats. Birds sing. Cats and dogs play. Fish swim''
       = ''Dogs bark loudly at cats. Cats and dogs play.''
   \<and> ends_with_period (extractive_summary ''The cat sat. Dogs bark loudly at cats. Birds sing. Cats and dogs play. Fish swim'')"
proof -
  let ?t = "''The cat sat. Dogs bark loudly at cats. Birds sing. Cats and dogs play. Fish swim''"
  have h: "4 \<le> length (split_sentences ?t)" by simp
  have s: "selected_sentences ?t = [1, 3]" by code_simp
  have e: "extractive_summary ?t = ''Dogs bark loudly at cats. Cats and dogs play.''"
    by code_simp
  from extractive_summary_selects_floor_target [OF h] h s e show ?thesis by blast
qed

text \<open>
  Claim C3 as stated fails. A text of nine sentences has \<open>round(9 * 0.3) = 3\<close>, but
  the code truncates \<open>2.7\<close> to \<open>2\<close> and selects two sentences; and when the last
  selected sentence already ends with two periods, so does the output.
\<close>

theorem extractive_summary_truncates_target:
  "length (split_sentences ''a. b. c. d. e. f. g. h. zzzz zzzz..'') = 9
   \<and> spec_target_sentences 9 = 3
   \<and> selected_sentences ''a. b. c. d. e. f. g. h. zzzz zzzz..'' = [0, 8]
   \<and> extractive_summary ''a. b. c. d. e. f. g. h. zzzz zzzz..'' = ''a. zzzz zzzz..''"
  by code_simp

text \<open>
  Claim C8. An input that splits into three or fewer sentences on \<open>". "\<close> is returned
  unchanged by the extractive summarizer.
\<close>

theorem extractive_summary_short_unchanged:
  assumes "length (split_sentences text) \<le> 3"
  shows "extractive_summary text = text"
  using assms by (simp add: extractive_summary_def)

theorem extractive_summary_short_witness:
  "length (split_sentences ''One here. Two there. Three.'') \<le> 3
   \<and> extractive_summary ''One here. Two there. Three.'' = ''One here. Two there. Three.''"
proof -
  have h: "length (split_sentences ''One here. Two there. Three.'') \<le> 3" by simp
  from extractive_summary_short_unchanged [OF h] h show ?thesis by simp
qed

section \<open>Properties of the engine\<close>

subsection \<open>Words and chunks\<close>

lemma split_ws_word_append:
  assumes "is_word w"
  shows "split_ws (w @ CHR '' '' # rest) = w # split_ws rest"
proof -
  from assms obtain c cs where e: "w = c # cs" by (cases w) (auto simp: is_word_def)
  from assms e have nc: "\<not> is_space c" and ncs: "\<forall>x \<in> set cs. \<not> is_space x"
    by (auto simp: is_word_def)
  have t: "takeWhile (\<lambda>x. \<not> is_space x) (cs @ CHR '' '' # rest) = cs"
    using ncs by (simp add: takeWhile_append2 takeWhile_tail)
  have d: "dropWhile (\<lambda>x. \<not> is_space x) (cs @ CHR '' '' # rest) = CHR '' '' # rest"
    using ncs by (simp add: dropWhile_append2)
  show ?thesis using nc by (simp add: e t d)
qed

lemma split_ws_word:
  assumes "is_word w"
  shows "split_ws w = [w]"
proof -
  from assms obtain c cs where e: "w = c # cs" by (cases w) (auto simp: is_word_def)
  from assms e have nc: "\<not> is_space c" and ncs: "\<forall>x \<in> set cs. \<not> is_space x"
    by (auto simp: is_word_def)
  from ncs have t: "takeWhile (\<lambda>x. \<not> is_space x) cs = cs"
    and d: "dropWhile (\<lambda>x. \<not> is_space x) cs = []"
    by auto
  show ?thesis using nc by (simp add: e t d)
qed

lemma split_ws_join_words:
  "\<forall>w \<in> set ws. is_word w \<Longrightarrow> split_ws (join '' '' ws) = ws"
proof (induction ws)
  case Nil
  show ?case by simp
next
  case (Cons x xs)
  show ?case
  proof (cases xs)
    case Nil
    with Cons.prems show ?thesis by (simp add: split_ws_word)
  next
    case (Cons y ys)
    with Cons.IH Cons.prems have "split_ws (join '' '' (y # ys)) = y # ys" by simp
    with Cons Cons.prems show ?thesis by (simp add: split_ws_word_append)
  qed
qed

lemma split_ws_words: "\<forall>w \<in> set (split_ws s). is_word w"
proof (induction s rule: split_ws.induct)
  case 1
  show ?case by simp
next
  case (2 c cs)
  show ?case
  proof (cases "is_space c")
    case True
    with 2 show ?thesis by simp
  next
    case False
    have "is_word (c # takeWhile (\<lambda>x. \<not> is_space x) cs)"
      using False by (auto simp: is_word_def dest: set_takeWhileD)
    with False 2 show ?thesis by simp
  qed
qed

lemma split_ws_nonempty: "\<exists>c \<in> set s. \<not> is_space c \<Longrightarrow> split_ws s \<noteq> []"
  by (induction s rule: split_ws.induct) (auto split: if_splits)

lemma split_ws_period: "ends_with_period s \<Longrightarrow> 1 \<le> length (split_ws s)"
proof -
  assume "ends_with_period s"
  then have "CHR ''.'' \<in> set s" by (auto simp: ends_with_period_def dest: last_in_set)
  moreover have "\<not> is_space CHR ''.''" by (simp add: is_space_def)
  ultimately have "split_ws s \<noteq> []" by (intro split_ws_nonempty) blast
  then show ?thesis by (cases "split_ws s") auto
qed

lemma concat_chunks_take:
  "concat (map (\<lambda>k. take n (drop (k * n) xs)) [0..<m]) = take (m * n) xs"
proof (induction m)
  case 0
  show ?case by simp
next
  case (Suc m)
  have "take (m * n + n) xs = take (m * n) xs @ take n (drop (m * n) xs)"
    by (rule take_add)
  with Suc show ?case by (simp add: add.commute)
qed

lemma summarize_chunks_successes:
  "summarize_chunks summarizer chunks =
     successes (map (\<lambda>chunk. summarizer chunk
                      (min 100 (int (3 * length (split_ws chunk) div 10))) 20) chunks)"
  by (induction chunks) (auto split: sum.splits)

lemma length_chunk_texts:
  "length (chunk_texts words) = (length words + 799) div 800"
  by (simp add: chunk_texts_def chunk_size_def)

lemma nth_chunk_texts:
  "k < length (chunk_texts words) \<Longrightarrow>
     chunk_texts words ! k = join '' '' (take 800 (drop (800 * k) words))"
  by (simp add: chunk_texts_def chunk_size_def mult.commute)

lemma split_ws_nth_chunk:
  assumes "\<forall>w \<in> set words. is_word w" "k < length (chunk_texts words)"
  shows "split_ws (chunk_texts words ! k) = take 800 (drop (800 * k) words)"
proof -
  have "\<forall>w \<in> set (take 800 (drop (800 * k) words)). is_word w"
    using assms(1) by (meson in_set_dropD in_set_takeD)
  then show ?thesis using assms(2) by (simp add: nth_chunk_texts split_ws_join_words)
qed

lemma concat_split_ws_chunks:
  assumes "\<forall>w \<in> set words. is_word w"
  shows "concat (map split_ws (chunk_texts words)) = words"
proof -
  let ?m = "(length words + 799) div 800"
  have "map split_ws (chunk_texts words)
          = map (\<lambda>k. take 800 (drop (k * 800) words)) [0..<?m]"
  proof (rule nth_equalityI)
    show "length (map split_ws (chunk_texts words))
            = length (map (\<lambda>k. take 800 (drop (k * 800) words)) [0..<?m])"
      by (simp add: length_chunk_texts)
  next
    fix k assume "k < length (map split_ws (chunk_texts words))"
    then have k: "k < length (chunk_texts words)" by simp
    then have "k < ?m" by (simp add: length_chunk_texts)
    with k show "map split_ws (chunk_texts words) ! k
                   = map (\<lambda>k. take 800 (drop (k * 800) words)) [0..<?m] ! k"
      using split_ws_nth_chunk [OF assms k] by (simp add: mult.commute)
  qed
  then have "concat (map split_ws (chunk_texts words)) = take (?m * 800) words"
    by (simp add: concat_chunks_take)
  moreover have "length words \<le> ?m * 800" by arith
  ultimately show ?thesis by simp
qed

subsection \<open>The three paths of \<open>generate_summary\<close>\<close>

lemma generate_summary_fallback:
  "50 \<le> length (split_ws text) \<Longrightarrow>
     generate_summary None text max_words min_words = Inr (extractive_summary text)"
  by (simp add: generate_summary_def Let_def)

lemma generate_summary_regular:
  assumes "50 \<le> length (split_ws text)" "length (split_ws text) \<le> 1000"
  shows "generate_summary (Some summarizer) text max_words min_words
           = (case summarizer text
                     (min max_words (max min_words (int (4 * length (split_ws text) div 10))))
                     min_words of
                Inr out \<Rightarrow> Inr out
              | Inl (Exception e) \<Rightarrow> Inr (''Error generating summary: '' @ e))"
  using assms by (simp add: generate_summary_def Let_def)

lemma generate_summary_chunked:
  assumes "1000 < length (split_ws text)"
  shows "generate_summary (Some summarizer) text max_words min_words
           = (let combined = join '' '' (successes (map (\<lambda>chunk. summarizer chunk
                               (min 100 (int (3 * length (split_ws chunk) div 10))) 20)
                               (chunk_texts (split_ws text))))
              in if max_words < int (length (split_ws combined))
                 then summarizer combined max_words min_words
                 else Inr combined)"
  using assms by (simp add: generate_summary_def Let_def summarize_chunks_successes)

lemma extractive_summary_has_word:
  assumes "1 \<le> length (split_ws text)"
  shows "1 \<le> length (split_ws (extractive_summary text))"
proof (cases "length (split_sentences text) \<le> 3")
  case True
  with assms show ?thesis by (simp add: extractive_summary_def)
next
  case False
  then have "ends_with_period (extractive_summary text)"
    by (simp add: extractive_summary_def Let_def ends_with_period_def)
  then show ?thesis by (rule split_ws_period)
qed

subsection \<open>The engine on texts of one repeated word\<close>

lemma is_word_word: "is_word ''word''"
  by (simp add: is_word_def is_space_def)

lemma is_word_replicate_x: "0 < n \<Longrightarrow> is_word (replicate n CHR ''x'')"
  by (auto simp: is_word_def is_space_def)

lemma split_ws_repeated_word: "split_ws (repeated_word n) = replicate n ''word''"
  unfolding repeated_word_def
  by (rule split_ws_join_words) (simp add: is_word_word)

lemma chunk_texts_1609:
  "chunk_texts (replicate 1609 ''word'')
     = [repeated_word 800, repeated_word 800, repeated_word 9]"
proof -
  have u: "[0..<3] = [0, 1, 2]" by (simp add: upt_rec)
  show ?thesis
    by (simp add: chunk_texts_def chunk_size_def repeated_word_def u)
qed

lemma generate_summary_echo_1609:
  "generate_summary (Some echo_bound) (repeated_word 1609) 150 30
     = Inr (join '' '' [replicate 100 CHR ''x'', replicate 100 CHR ''x'', replicate 2 CHR ''x''])"
proof -
  have s: "summarize_chunks echo_bound [repeated_word 800, repeated_word 800, repeated_word 9]
             = [replicate 100 CHR ''x'', replicate 100 CHR ''x'', replicate 2 CHR ''x'']"
    by (simp add: split_ws_repeated_word echo_bound_def)
  have c: "split_ws (join '' '' [replicate 100 CHR ''x'', replicate 100 CHR ''x'',
                                 replicate 2 CHR ''x''])
             = [replicate 100 CHR ''x'', replicate 100 CHR ''x'', replicate 2 CHR ''x'']"
    by (rule split_ws_join_words) (simp add: is_word_replicate_x)
  show ?thesis
    by (simp add: generate_summary_def Let_def split_ws_repeated_word chunk_texts_1609 s c
        del: summarize_chunks.simps join.simps)
qed

lemma summarize_chunks_flaky_1609:
  "summarize_chunks flaky [repeated_word 800, repeated_word 800, repeated_word 9]
     = [''ok'', ''ok'']"
  by (simp add: split_ws_repeated_word flaky_def)

lemma generate_summary_flaky_1609:
  "generate_summary (Some flaky) (repeated_word 1609) 150 30 = Inr ''ok ok''"
  by (simp add: generate_summary_def Let_def split_ws_repeated_word chunk_texts_1609
      summarize_chunks_flaky_1609 is_space_def del: summarize_chunks.simps)


lemma generate_summary_failing_1609:
  "generate_summary (Some always_failing) (repeated_word 1609) 150 30 = Inr []"
  by (simp add: generate_summary_def Let_def split_ws_repeated_word chunk_texts_1609
      always_failing_def)

lemma generate_summary_echo_99:
  "generate_summary (Some echo_bound) (repeated_word 99) 150 30 = Inr (replicate 39 CHR ''x'')"
  by (simp add: generate_summary_def Let_def split_ws_repeated_word echo_bound_def)

subsection \<open>Inputs of 50 to 1000 words\<close>

text \<open>
  Claim C5, as amended. For an input of 50 to 1000 words and the model-backed
  strategy, the one call to the summarizer gets the upper bound
  \<open>min(max_words, max(min_words, floor(word count * 0.4)))\<close> and the lower bound
  \<open>min_words\<close>; the engine returns what the call returns or, when it raises, the
  text \<open>Error generating summary: \<close> followed by the reason.
\<close>

theorem regular_summary_bounds:
  assumes "50 \<le> length (split_ws text)" "length (split_ws text) \<le> 1000"
  shows "generate_summary (Some summarizer) text max_words min_words
           = (case summarizer text
                     (min max_words (max min_words (int (4 * length (split_ws text) div 10))))
                     min_words of
                Inr out \<Rightarrow> Inr out
              | Inl (Exception e) \<Rightarrow> Inr (''Error generating summary: '' @ e))"
  using assms by (rule generate_summary_regular)

text \<open>
  The theorem at a text of 60 words: the upper bound is \<open>max(30, 24) = 30\<close>.
\<close>

theorem regular_summary_bounds_witness:
  "50 \<le> length (split_ws (repeated_word 60)) \<and> length (split_ws (repeated_word 60)) \<le> 1000
   \<and> generate_summary (Some echo_bound) (repeated_word 60) 150 30 = Inr (replicate 30 CHR ''x'')"
proof -
  have h1: "50 \<le> length (split_ws (repeated_word 60))"
    and h2: "length (split_ws (repeated_word 60)) \<le> 1000"
    by (simp_all add: split_ws_repeated_word)
  from regular_summary_bounds [OF h1 h2, of echo_bound 150 30] h1 h2
  show ?thesis by (simp add: split_ws_repeated_word echo_bound_def)
qed

text \<open>
  Claim C5 as stated fails: for 99 words the code passes \<open>int(39.6) = 39\<close>, where
  the claim's \<open>round(39.6)\<close> is 40.
\<close>

theorem regular_bound_truncated_not_rounded:
  "length (split_ws (repeated_word 99)) = 99
   \<and> generate_summary (Some echo_bound) (repeated_word 99) 150 30 = Inr (replicate 39 CHR ''x'')
   \<and> spec_max_len 99 150 30 = 40"
proof -
  have "spec_max_len 99 150 30 = 40" by (simp add: spec_max_len_def round_div_def)
  with generate_summary_echo_99 show ?thesis by (simp add: split_ws_repeated_word)
qed

subsection \<open>Inputs of more than 1000 words\<close>

text \<open>
  Claim C2, as amended. With the model-backed strategy, an input of more than 1000
  words is cut into \<open>ceil(n / 800)\<close> chunks; chunk \<open>k\<close> holds the words \<open>800 k\<close> up to
  \<open>800 k + 799\<close> of the input (the last chunk may be shorter), so the chunks do not
  overlap and, one after the other, are the words of the input. Each chunk is
  summarized with the upper bound \<open>min(100, floor(0.3 * chunk word count))\<close> and the
  lower bound 20; the summaries of the calls that returned are joined in order by
  single blanks; the joined text is summarized once more, with the bounds
  \<open>(max_words, min_words)\<close>, when it has more than \<open>max_words\<close> words. With the
  fallback strategy nothing is cut: the engine returns the extractive summary of
  the whole text.
\<close>

theorem chunked_summary_model_backed:
  assumes "1000 < length (split_ws text)"
  shows "length (chunk_texts (split_ws text)) = (length (split_ws text) + 799) div 800
       \<and> (\<forall>k < length (chunk_texts (split_ws text)).
            split_ws (chunk_texts (split_ws text) ! k)
              = take 800 (drop (800 * k) (split_ws text)))
       \<and> concat (map split_ws (chunk_texts (split_ws text))) = split_ws text
       \<and> generate_summary (Some summarizer) text max_words min_words
           = (let combined = join '' '' (successes (map (\<lambda>chunk. summarizer chunk
                               (min 100 (int (3 * length (split_ws chunk) div 10))) 20)
                               (chunk_texts (split_ws text))))
              in if max_words < int (length (split_ws combined))
                 then summarizer combined max_words min_words
                 else Inr combined)
       \<and> generate_summary None text max_words min_words = Inr (extractive_summary text)"
proof -
  have w: "\<forall>w \<in> set (split_ws text). is_word w" by (rule split_ws_words)
  have a: "length (chunk_texts (split_ws text)) = (length (split_ws text) + 799) div 800"
    by (rule length_chunk_texts)
  have b: "\<forall>k < length (chunk_texts (split_ws text)).
            split_ws (chunk_texts (split_ws text) ! k)
              = take 800 (drop (800 * k) (split_ws text))"
    using split_ws_nth_chunk [OF w] by blast
  have c: "concat (map split_ws (chunk_texts (split_ws text))) = split_ws text"
    by (rule concat_split_ws_chunks [OF w])
  note d = generate_summary_chunked [OF assms, of summarizer max_words min_words]
  have e: "generate_summary None text max_words min_words = Inr (extractive_summary text)"
    using assms by (intro generate_summary_fallback) simp
  from a b c d e show ?thesis by blast
qed

text \<open>
  The theorem at a text of 1609 words, with a summarizer that fails on the last
  chunk.
\<close>

theorem chunked_summary_witness:
  "1000 < length (split_ws (repeated_word 1609))
   \<and> length (chunk_texts (split_ws (repeated_word 1609))) = 3
   \<and> concat (map split_ws (chunk_texts (split_ws (repeated_word 1609))))
       = split_ws (repeated_word 1609)
   \<and> generate_summary (Some flaky) (repeated_word 1609) 150 30 = Inr ''ok ok''"
proof -
  have h: "1000 < length (split_ws (repeated_word 1609))"
    by (simp add: split_ws_repeated_word)
  from chunked_summary_model_backed [OF h, of flaky 150 30]
  have "length (chunk_texts (split_ws (repeated_word 1609)))
          = (length (split_ws (repeated_word 1609)) + 799) div 800"
    and "concat (map split_ws (chunk_texts (split_ws (repeated_word 1609))))
           = split_ws (repeated_word 1609)"
    by blast+
  with h generate_summary_flaky_1609 show ?thesis
    by (simp add: split_ws_repeated_word)
qed

text \<open>
  Claim C2 as stated fails: the last chunk of a text of 1609 words has 9 words, and
  the summarizer is called on it with the upper bound \<open>int(2.7) = 2\<close>, where the
  claim's \<open>round(2.7)\<close> is 3. (The summarizer here answers with as many letters as
  its upper bound.)
\<close>

theorem chunk_bound_truncated_not_rounded:
  "generate_summary (Some echo_bound) (repeated_word 1609) 150 30
     = Inr (join '' '' [replicate 100 CHR ''x'', replicate 100 CHR ''x'', replicate 2 CHR ''x''])
   \<and> length (split_ws (last (chunk_texts (split_ws (repeated_word 1609))))) = 9
   \<and> spec_chunk_max_length 9 = 3"
proof -
  have "spec_chunk_max_length 9 = 3"
    by (simp add: spec_chunk_max_length_def round_div_def)
  moreover have "length (split_ws (last (chunk_texts (split_ws (repeated_word 1609))))) = 9"
    by (simp add: split_ws_repeated_word chunk_texts_1609)
  ultimately show ?thesis using generate_summary_echo_1609 by simp
qed

subsection \<open>Failing summarization calls\<close>




section \<open>Properties of the entity extractor\<close>

text \<open>
  Claim C7. Without spaCy, \<open>extract_entities\<close> returns at most 20 entities, at most 5
  of them labelled DATE and at most 5 labelled MONEY; the result is the first 5
  date matches, then the first 5 money matches, then those of the first 10
  capitalized-phrase matches that are longer than 3 characters, labelled
  PERSON/ORG.
\<close>

theorem regex_entities_caps:
  "extract_entities None text = Inr (regex_entities text)
   \<and> length (regex_entities text) \<le> 20
   \<and> length (filter (\<lambda>e. snd e = ''DATE'') (regex_entities text)) \<le> 5
   \<and> length (filter (\<lambda>e. snd e = ''MONEY'') (regex_entities text)) \<le> 5
   \<and> regex_entities text
       = map (\<lambda>date. (date, ''DATE'')) (take 5 (re_findall date_pattern False text))
         @ map (\<lambda>amount. (amount, ''MONEY'')) (take 5 (re_findall money_pattern True text))
         @ map (\<lambda>name. (name, ''PERSON/ORG''))
             (filter (\<lambda>name. 3 < length name) (take 10 (re_findall name_pattern False text)))"
proof -
  let ?d = "map (\<lambda>date. (date, ''DATE'')) (take 5 (re_findall date_pattern False text))"
  let ?m = "map (\<lambda>amount. (amount, ''MONEY'')) (take 5 (re_findall money_pattern True text))"
  let ?n = "map (\<lambda>name. (name, ''PERSON/ORG''))
             (filter (\<lambda>name. 3 < length name) (take 10 (re_findall name_pattern False text)))"
  have ln: "length ?n \<le> 10"
    using length_filter_le [of "\<lambda>name. 3 < length name" "take 10 (re_findall name_pattern False text)"]
    by simp
  have ld: "length ?d \<le> 5" and lm: "length ?m \<le> 5" by simp_all
  have "length (?d @ ?m @ ?n) \<le> 20" using ln ld lm by simp
  then have eq: "regex_entities text = ?d @ ?m @ ?n"
    by (simp add: regex_entities_def Let_def)
  have fd: "filter (\<lambda>e. snd e = ''DATE'') (?d @ ?m @ ?n) = ?d"
    by (simp add: filter_map o_def)
  have fm: "filter (\<lambda>e. snd e = ''MONEY'') (?d @ ?m @ ?n) = ?m"
    by (simp add: filter_map o_def)
  have a: "extract_entities None text = Inr (regex_entities text)"
    by (simp add: extract_entities_def)
  have b: "length (regex_entities text) \<le> 20" unfolding eq using ln ld lm by simp
  have c: "length (filter (\<lambda>e. snd e = ''DATE'') (regex_entities text)) \<le> 5"
    unfolding eq fd by simp
  have d: "length (filter (\<lambda>e. snd e = ''MONEY'') (regex_entities text)) \<le> 5"
    unfolding eq fm by simp
  from a b c d eq show ?thesis by blast
qed


section \<open>Properties of the pipeline\<close>

lemma round1_lower: "of_int k / 10 \<le> x \<Longrightarrow> of_int k / 10 \<le> round1 x"
proof -
  assume "of_int k / 10 \<le> x"
  then have "of_int k \<le> x * 10" by simp
  then have k: "k \<le> \<lfloor>x * 10\<rfloor>" by (simp add: le_floor_iff)
  have "of_int \<lfloor>x * 10\<rfloor> / 10 \<le> round1 x"
    by (simp add: round1_def Let_def)
  moreover from k have "(of_int k :: rat) / 10 \<le> of_int \<lfloor>x * 10\<rfloor> / 10"
    by simp
  ultimately show ?thesis by linarith
qed

lemma advisory_ratio_lower:
  assumes "20 \<le> n"
  shows "40 \<le> compression_ratio_of 12 n"
proof -
  from assms have "(12 :: rat) / of_nat n \<le> 12 / 20"
    by (intro divide_left_mono) auto
  then have "(of_int 400 :: rat) / 10 \<le> (1 - of_nat 12 / of_nat n) * 100" by simp
  then have "(of_int 400 :: rat) / 10 \<le> compression_ratio_of 12 n"
    unfolding compression_ratio_of_def by (rule round1_lower)
  then show ?thesis by simp
qed

lemma length_split_ws_advisory: "length (split_ws advisory) = 12"
  by code_simp

lemma clean_sample_request: "clean_text soup_text sample_request = sample_text"
  by code_simp

lemma strip_sample_request: "strip sample_request \<noteq> []"
  by code_simp

lemma length_split_ws_sample_text: "length (split_ws sample_text) = 22"
  by code_simp



lemma clean_hello: "clean_text soup_text ''<b>Hello</b> world'' = ''Hello world''"
  by code_simp

subsection \<open>The word-count gates\<close>

text \<open>
  Claim C1, as amended. A request whose normalized text has fewer than 20 words is
  answered with a user-input error and the history is left as it was. For a text
  of 20 to 49 words the engine returns the fixed advisory sentence, whatever the
  strategy. For a text of 50 words or more the fallback strategy returns a
  non-empty summary of at least one word; so does the model-backed strategy for a
  text of at most 1000 words, provided that what the model returns for it has a
  word (a failed call gives the error text).
\<close>

theorem word_count_gates:
  "(length (split_ws (clean_text (markup_text env) raw)) < 20
      \<longrightarrow> summarize env history raw max_words
            = (Failure ''Please provide text to summarize'', history)
        \<or> summarize env history raw max_words
            = (Failure ''Text is too short. Please provide at least 20 words.'', history))
   \<and> (20 \<le> length (split_ws text) \<and> length (split_ws text) < 50
      \<longrightarrow> generate_summary strategy text max_len min_len = Inr advisory)
   \<and> (50 \<le> length (split_ws text)
      \<longrightarrow> (\<exists>out. generate_summary None text max_len min_len = Inr out
                 \<and> out \<noteq> [] \<and> 1 \<le> length (split_ws out)))
   \<and> (50 \<le> length (split_ws text) \<and> length (split_ws text) \<le> 1000
      \<and> (\<forall>out. summarizer text
                   (min max_len (max min_len (int (4 * length (split_ws text) div 10))))
                   min_len = Inr out
                 \<longrightarrow> 1 \<le> length (split_ws out))
      \<longrightarrow> (\<exists>out. generate_summary (Some summarizer) text max_len min_len = Inr out
                 \<and> out \<noteq> [] \<and> 1 \<le> length (split_ws out)))"
proof -
  have a: "length (split_ws (clean_text (markup_text env) raw)) < 20
      \<longrightarrow> summarize env history raw max_words
            = (Failure ''Please provide text to summarize'', history)
        \<or> summarize env history raw max_words
            = (Failure ''Text is too short. Please provide at least 20 words.'', history)"
    by (simp add: summarize_def Let_def)
  have b: "20 \<le> length (split_ws text) \<and> length (split_ws text) < 50
      \<longrightarrow> generate_summary strategy text max_len min_len = Inr advisory"
    by (simp add: generate_summary_def Let_def)
  have c: "50 \<le> length (split_ws text)
      \<longrightarrow> (\<exists>out. generate_summary None text max_len min_len = Inr out
                 \<and> out \<noteq> [] \<and> 1 \<le> length (split_ws out))"
  proof
    assume h: "50 \<le> length (split_ws text)"
    then have "1 \<le> length (split_ws (extractive_summary text))"
      by (intro extractive_summary_has_word) simp
    moreover from this have "extractive_summary text \<noteq> []" by auto
    ultimately show "\<exists>out. generate_summary None text max_len min_len = Inr out
                 \<and> out \<noteq> [] \<and> 1 \<le> length (split_ws out)"
      using h by (simp add: generate_summary_fallback)
  qed
  have d: "50 \<le> length (split_ws text) \<and> length (split_ws text) \<le> 1000
      \<and> (\<forall>out. summarizer text
                   (min max_len (max min_len (int (4 * length (split_ws text) div 10))))
                   min_len = Inr out
                 \<longrightarrow> 1 \<le> length (split_ws out))
      \<longrightarrow> (\<exists>out. generate_summary (Some summarizer) text max_len min_len = Inr out
                 \<and> out \<noteq> [] \<and> 1 \<le> length (split_ws out))"
  proof
    assume h: "50 \<le> length (split_ws text) \<and> length (split_ws text) \<le> 1000
      \<and> (\<forall>out. summarizer text
                   (min max_len (max min_len (int (4 * length (split_ws text) div 10))))
                   min_len = Inr out
                 \<longrightarrow> 1 \<le> length (split_ws out))"
    let ?call = "summarizer text
                   (min max_len (max min_len (int (4 * length (split_ws text) div 10)))) min_len"
    have e: "\<And>r. split_ws (''Error generating summary: '' @ r) \<noteq> []"
      by (rule split_ws_nonempty) (auto simp: is_space_def)
    show "\<exists>out. generate_summary (Some summarizer) text max_len min_len = Inr out
                 \<and> out \<noteq> [] \<and> 1 \<le> length (split_ws out)"
    proof (cases ?call)
      case (Inl err)
      obtain r where "err = Exception r" by (cases err)
      with Inl h e [of r] show ?thesis
        by (cases "split_ws (''Error generating summary: '' @ r)")
           (auto simp: generate_summary_regular)
    next
      case (Inr out)
      with h have "1 \<le> length (split_ws out)" by blast
      moreover from this have "out \<noteq> []" by auto
      ultimately show ?thesis using Inr h by (simp add: generate_summary_regular)
    qed
  qed
  from a b c d show ?thesis by blast
qed

text \<open>
  The theorem at a request of 2 words and at texts of 30 and 60 words.
\<close>

theorem word_count_gates_witness:
  "length (split_ws (clean_text (markup_text fallback_env) ''<b>Hello</b> world'')) < 20
   \<and> summarize fallback_env [] ''<b>Hello</b> world'' 150
       = (Failure ''Text is too short. Please provide at least 20 words.'', [])
   \<and> 20 \<le> length (split_ws (repeated_word 30)) \<and> length (split_ws (repeated_word 30)) < 50
   \<and> generate_summary None (repeated_word 30) 150 30 = Inr advisory
   \<and> 50 \<le> length (split_ws (repeated_word 60)) \<and> length (split_ws (repeated_word 60)) \<le> 1000
   \<and> (\<exists>out. generate_summary None (repeated_word 60) 150 30 = Inr out
          \<and> out \<noteq> [] \<and> 1 \<le> length (split_ws out))
   \<and> echo_bound (repeated_word 60) 30 30 = Inr (replicate 30 CHR ''x'')
   \<and> (\<exists>out. generate_summary (Some echo_bound) (repeated_word 60) 150 30 = Inr out
          \<and> out \<noteq> [] \<and> 1 \<le> length (split_ws out))"
proof -
  have m: "markup_text fallback_env = soup_text" by (simp add: fallback_env_def)
  have h1: "length (split_ws (clean_text (markup_text fallback_env) ''<b>Hello</b> world'')) < 20"
    by (simp add: m clean_hello is_space_def)
  have ns: "strip ''<b>Hello</b> world'' \<noteq> []" by (simp add: strip_def is_space_def)
  have h2: "20 \<le> length (split_ws (repeated_word 30)) \<and> length (split_ws (repeated_word 30)) < 50"
    by (simp add: split_ws_repeated_word)
  have h3: "50 \<le> length (split_ws (repeated_word 60))"
    and h3': "length (split_ws (repeated_word 60)) \<le> 1000"
    by (simp_all add: split_ws_repeated_word)
  have e: "echo_bound (repeated_word 60) 30 30 = Inr (replicate 30 CHR ''x'')"
    by (simp add: echo_bound_def)
  have w: "split_ws (replicate 30 CHR ''x'') = [replicate 30 CHR ''x'']"
    by (rule split_ws_word) (simp add: is_word_replicate_x)
  have h4: "\<forall>out. echo_bound (repeated_word 60)
                   (min 150 (max 30 (int (4 * length (split_ws (repeated_word 60)) div 10)))) 30
                 = Inr out \<longrightarrow> 1 \<le> length (split_ws out)"
    using w by (auto simp: split_ws_repeated_word echo_bound_def)
  note a = word_count_gates [of fallback_env "''<b>Hello</b> world''" "[]" 150
             "repeated_word 30" None 150 30 echo_bound]
  note b = word_count_gates [of fallback_env "''<b>Hello</b> world''" "[]" 150
             "repeated_word 60" None 150 30 echo_bound]
  have f: "summarize fallback_env [] ''<b>Hello</b> world'' 150
       = (Failure ''Text is too short. Please provide at least 20 words.'', [])"
    using a h1 ns by (auto simp: summarize_def)
  have g: "generate_summary None (repeated_word 30) 150 30 = Inr advisory"
    using a h2 by blast
  have c: "\<exists>out. generate_summary None (repeated_word 60) 150 30 = Inr out
          \<and> out \<noteq> [] \<and> 1 \<le> length (split_ws out)"
    using b h3 by blast
  have d: "\<exists>out. generate_summary (Some echo_bound) (repeated_word 60) 150 30 = Inr out
          \<and> out \<noteq> [] \<and> 1 \<le> length (split_ws out)"
    using b h3 h3' h4 by blast
  from h1 f h2 g h3 h3' c e d show ?thesis by blast
qed

text \<open>
  Claim C1 as stated fails for a text of more than 1000 words and the model-backed
  strategy: when the call fails on every chunk, all chunks are skipped and the
  engine returns the empty string, which has no word.
\<close>

theorem empty_summary_when_every_chunk_fails:
  "50 \<le> length (split_ws (repeated_word 1609))
   \<and> generate_summary (Some always_failing) (repeated_word 1609) 150 30 = Inr []
   \<and> length (split_ws []) = 0"
  using generate_summary_failing_1609 by (simp add: split_ws_repeated_word)

subsection \<open>The compression ratio\<close>



subsection \<open>The advisory sentence\<close>

text \<open>
  Claim C10, as amended. For a request whose normalized text has 20 to 49 words
  (entity extraction and the history file not failing), \<open>summarize\<close> answers with
  the success envelope: the summary is the fixed advisory sentence, the summary
  word count is the sentence's own 12 words, and the compression ratio is
  \<open>round((1 - 12 / word count) * 100, 1)\<close>, which is at least 40: it is never zero
  or negative.
\<close>

theorem advisory_in_success_envelope:
  assumes "strip raw \<noteq> []"
    and "20 \<le> length (split_ws (clean_text (markup_text env) raw))"
    and "length (split_ws (clean_text (markup_text env) raw)) < 50"
    and "extract_entities (spacy_model env) (clean_text (markup_text env) raw) = Inr ents"
    and "history_io env = None"
  shows "\<exists>r h. summarize env history raw max_words = (Success r, h)
           \<and> summary r = advisory
           \<and> summary_word_count r = 12
           \<and> original_word_count r = length (split_ws (clean_text (markup_text env) raw))
           \<and> compression_ratio r
               = round1 ((1 - 12 / of_nat (original_word_count r)) * 100)
           \<and> 40 \<le> compression_ratio r"
proof -
  let ?n = "length (split_ws (clean_text (markup_text env) raw))"
  have g: "generate_summary (transformer_model env) (clean_text (markup_text env) raw)
             max_words 30 = Inr advisory"
    using assms(3) by (simp add: generate_summary_def Let_def)
  have r: "compression_ratio_of 12 ?n = round1 ((1 - 12 / of_nat ?n) * 100)"
    by (simp add: compression_ratio_of_def)
  show ?thesis
    using assms advisory_ratio_lower [of ?n] r
    by (simp add: summarize_def Let_def g length_split_ws_advisory)
qed

text \<open>
  The theorem at a request of 22 words.
\<close>

theorem advisory_in_success_envelope_witness:
  "strip sample_request \<noteq> []
   \<and> 20 \<le> length (split_ws (clean_text (markup_text fallback_env) sample_request))
   \<and> length (split_ws (clean_text (markup_text fallback_env) sample_request)) < 50
   \<and> history_io fallback_env = None
   \<and> (\<exists>r h. summarize fallback_env [] sample_request 150 = (Success r, h)
         \<and> summary r = advisory \<and> summary_word_count r = 12
         \<and> original_word_count r = 22 \<and> 40 \<le> compression_ratio r)"
proof -
  have m: "markup_text fallback_env = soup_text" and s: "spacy_model fallback_env = None"
    and h5: "history_io fallback_env = None"
    by (simp_all add: fallback_env_def)
  have h1: "strip sample_request \<noteq> []" by (rule strip_sample_request)
  have h2: "20 \<le> length (split_ws (clean_text (markup_text fallback_env) sample_request))"
    and h3: "length (split_ws (clean_text (markup_text fallback_env) sample_request)) < 50"
    by (simp_all add: m clean_sample_request length_split_ws_sample_text)
  have h4: "extract_entities (spacy_model fallback_env)
              (clean_text (markup_text fallback_env) sample_request)
            = Inr (regex_entities sample_text)"
    by (simp add: m s clean_sample_request extract_entities_def)
  from advisory_in_success_envelope [OF h1 h2 h3 h4 h5, of "[]" 150]
  have "\<exists>r h. summarize fallback_env [] sample_request 150 = (Success r, h)
         \<and> summary r = advisory \<and> summary_word_count r = 12
         \<and> original_word_count r = 22 \<and> 40 \<le> compression_ratio r"
    by (auto simp: m clean_sample_request length_split_ws_sample_text)
  with h1 h2 h3 h5 show ?thesis by blast
qed

text \<open>
  Claim C10 as stated fails: the advisory sentence has 12 words and the input at
  least 20, so no input of 20 to 49 words has a compression ratio of zero or
  less.
\<close>

theorem advisory_ratio_never_nonpositive:
  "length (split_ws advisory) = 12
   \<and> \<not> (\<exists>n. 20 \<le> n \<and> n < 50 \<and> compression_ratio_of (length (split_ws advisory)) n \<le> 0)"
proof -
  have "\<not> (\<exists>n. 20 \<le> n \<and> n < 50 \<and> compression_ratio_of 12 n \<le> 0)"
  proof
    assume "\<exists>n. 20 \<le> n \<and> n < 50 \<and> compression_ratio_of 12 n \<le> 0"
    then obtain n where "20 \<le> n" "compression_ratio_of 12 n \<le> 0" by blast
    with advisory_ratio_lower [of n] show False by simp
  qed
  then show ?thesis by (simp add: length_split_ws_advisory)
qed

end
